theory Spec2Isabelle
  imports Complex_Main
begin


section \<open>Python values and the builtins the pipeline calls\<close>

text \<open>
  The pipeline of \<^verbatim>\<open>repo/libs/fetcher.py\<close> and \<^verbatim>\<open>repo/libs/db.py\<close> works on
  decoded JSON: the values \<^verbatim>\<open>json.loads\<close> can produce. A dict is kept as the list of
  its items in insertion order (its keys are distinct in Python; no result below
  needs that). The carrier \<open>'f\<close> of Python's floats is left open: the code never
  computes with a float, it only converts to and from one.
\<close>

datatype 'f pyval =
    PNone
  | PBool bool
  | PInt int
  | PFloat 'f
  | PStr string
  | PList "'f pyval list"
  | PDict "(string \<times> 'f pyval) list"

text \<open>The exceptions that the modelled code can see or raise.\<close>

datatype py_exc =
    AttributeError
  | TypeError
  | ValueError
  | OverflowError
  | RuntimeError string

text \<open>
  The conversions of the Python runtime that involve floats or the reading of a numeral
  from text: \<^verbatim>\<open>0.0\<close>, \<^verbatim>\<open>bool(x)\<close> of a float, \<^verbatim>\<open>float(s)\<close> of a string
  (\<open>None\<close>: ValueError), \<^verbatim>\<open>float(i)\<close> of an int (\<open>None\<close>: OverflowError),
  \<^verbatim>\<open>int(x)\<close> of a float (ValueError for nan, OverflowError for an infinity) and
  \<^verbatim>\<open>int(s)\<close> of a string (\<open>None\<close>: ValueError). Every function of the model takes
  them as a parameter, so every theorem holds for any behaviour of these builtins.
\<close>

record 'f py_runtime =
  float_zero :: 'f
  float_nonzero :: "'f \<Rightarrow> bool"
  float_of_str :: "string \<Rightarrow> 'f option"
  float_of_int :: "int \<Rightarrow> 'f option"
  int_of_float :: "'f \<Rightarrow> py_exc + int"
  int_of_str :: "string \<Rightarrow> int option"

text \<open>Truthiness, as \<^verbatim>\<open>or\<close>, \<^verbatim>\<open>not\<close> and \<^verbatim>\<open>if\<close> test it.\<close>

fun truthy :: "'f py_runtime \<Rightarrow> 'f pyval \<Rightarrow> bool" where
  "truthy rt PNone = False"
| "truthy rt (PBool b) = b"
| "truthy rt (PInt i) = (i \<noteq> 0)"
| "truthy rt (PFloat x) = float_nonzero rt x"
| "truthy rt (PStr s) = (s \<noteq> [])"
| "truthy rt (PList xs) = (xs \<noteq> [])"
| "truthy rt (PDict kvs) = (kvs \<noteq> [])"

text \<open>\<^verbatim>\<open>float(v)\<close> and \<^verbatim>\<open>int(v)\<close>.\<close>

fun py_float :: "'f py_runtime \<Rightarrow> 'f pyval \<Rightarrow> py_exc + 'f" where
  "py_float rt (PFloat x) = Inr x"
| "py_float rt (PInt i) = (case float_of_int rt i of None \<Rightarrow> Inl OverflowError | Some x \<Rightarrow> Inr x)"
| "py_float rt (PBool b) =
     (case float_of_int rt (if b then 1 else 0) of None \<Rightarrow> Inl OverflowError | Some x \<Rightarrow> Inr x)"
| "py_float rt (PStr s) = (case float_of_str rt s of None \<Rightarrow> Inl ValueError | Some x \<Rightarrow> Inr x)"
| "py_float rt PNone = Inl TypeError"
| "py_float rt (PList xs) = Inl TypeError"
| "py_float rt (PDict kvs) = Inl TypeError"

fun py_int :: "'f py_runtime \<Rightarrow> 'f pyval \<Rightarrow> py_exc + int" where
  "py_int rt (PInt i) = Inr i"
| "py_int rt (PBool b) = Inr (if b then 1 else 0)"
| "py_int rt (PFloat x) = int_of_float rt x"
| "py_int rt (PStr s) = (case int_of_str rt s of None \<Rightarrow> Inl ValueError | Some i \<Rightarrow> Inr i)"
| "py_int rt PNone = Inl TypeError"
| "py_int rt (PList xs) = Inl TypeError"
| "py_int rt (PDict kvs) = Inl TypeError"

text \<open>\<^verbatim>\<open>d.get(k)\<close> on a dict given by its items, and on any value: only a dict has
  the method.\<close>

definition dict_get :: "(string \<times> 'f pyval) list \<Rightarrow> string \<Rightarrow> 'f pyval" where
  "dict_get kvs k = (case map_of kvs k of None \<Rightarrow> PNone | Some v \<Rightarrow> v)"

fun py_get :: "'f pyval \<Rightarrow> string \<Rightarrow> py_exc + 'f pyval" where
  "py_get (PDict kvs) k = Inr (dict_get kvs k)"
| "py_get v k = Inl AttributeError"

text \<open>\<^verbatim>\<open>s.startswith(p)\<close>.\<close>

definition startswith :: "string \<Rightarrow> string \<Rightarrow> bool" where
  "startswith s p = (take (length p) s = p)"

text \<open>
  \<^verbatim>\<open>s.strip()\<close>: the characters Python counts as whitespace, among the code points
  below 256, are removed from both ends.
\<close>

definition py_isspace :: "char \<Rightarrow> bool" where
  "py_isspace c =
     (let n = (of_char c :: nat)
      in (9 \<le> n \<and> n \<le> 13) \<or> (28 \<le> n \<and> n \<le> 32) \<or> n = 133 \<or> n = 160)"

definition strip :: "string \<Rightarrow> string" where
  "strip s = rev (dropWhile py_isspace (rev (dropWhile py_isspace s)))"

section \<open>The normalizer: \<^verbatim>\<open>parse_daily_response\<close>\<close>

text \<open>One emitted row: the dict literal that \<^verbatim>\<open>results.append\<close> receives.\<close>

record 'f price_bar =
  bar_symbol :: string
  bar_ts :: string
  bar_open :: 'f
  bar_high :: 'f
  bar_low :: 'f
  bar_close :: 'f
  bar_volume :: int
  bar_raw :: "'f pyval"

text \<open>
  \<^verbatim>\<open>values.get(k1) or values.get(k2) or dflt\<close>: the second lookup happens only when
  the first value is falsy, the default is taken only when both are.
\<close>

definition or_chain ::
  "'f py_runtime \<Rightarrow> 'f pyval \<Rightarrow> string \<Rightarrow> string \<Rightarrow> 'f pyval \<Rightarrow> py_exc + 'f pyval" where
  "or_chain rt vals k1 k2 dflt =
     (case py_get vals k1 of
        Inl e \<Rightarrow> Inl e
      | Inr a \<Rightarrow>
          if truthy rt a then Inr a
          else (case py_get vals k2 of
                  Inl e \<Rightarrow> Inl e
                | Inr b \<Rightarrow> if truthy rt b then Inr b else Inr dflt))"

text \<open>One price field: \<^verbatim>\<open>float(values.get(k1) or values.get(k2) or 0.0)\<close>.\<close>

definition price_of :: "'f py_runtime \<Rightarrow> 'f pyval \<Rightarrow> string \<Rightarrow> string \<Rightarrow> py_exc + 'f" where
  "price_of rt vals k1 k2 =
     (case or_chain rt vals k1 k2 (PFloat (float_zero rt)) of
        Inl e \<Rightarrow> Inl e
      | Inr v \<Rightarrow> py_float rt v)"

text \<open>The volume: \<^verbatim>\<open>int(values.get("6. volume") or values.get("volume") or 0)\<close>.\<close>

definition volume_of :: "'f py_runtime \<Rightarrow> 'f pyval \<Rightarrow> py_exc + int" where
  "volume_of rt vals =
     (case or_chain rt vals ''6. volume'' ''volume'' (PInt 0) of
        Inl e \<Rightarrow> Inl e
      | Inr v \<Rightarrow> py_int rt v)"

text \<open>
  The body of the \<^verbatim>\<open>try\<close>: the five conversions in the order of the source; the first
  exception leaves the block.
\<close>

definition parse_values ::
  "'f py_runtime \<Rightarrow> 'f pyval \<Rightarrow> py_exc + ('f \<times> 'f \<times> 'f \<times> 'f \<times> int)" where
  "parse_values rt vals =
     (case price_of rt vals ''1. open'' ''open'' of
        Inl e \<Rightarrow> Inl e
      | Inr open_p \<Rightarrow>
     (case price_of rt vals ''2. high'' ''high'' of
        Inl e \<Rightarrow> Inl e
      | Inr high_p \<Rightarrow>
     (case price_of rt vals ''3. low'' ''low'' of
        Inl e \<Rightarrow> Inl e
      | Inr low_p \<Rightarrow>
     (case price_of rt vals ''4. close'' ''close'' of
        Inl e \<Rightarrow> Inl e
      | Inr close_p \<Rightarrow>
     (case volume_of rt vals of
        Inl e \<Rightarrow> Inl e
      | Inr volume \<Rightarrow> Inr (open_p, high_p, low_p, close_p, volume))))))"

text \<open>
  One pass through the body of the loop over \<^verbatim>\<open>ts_map.items()\<close>: the row to append,
  or \<open>None\<close> when \<^verbatim>\<open>except Exception: continue\<close> was taken.
\<close>

definition parse_entry :: "'f py_runtime \<Rightarrow> string \<Rightarrow> string \<Rightarrow> 'f pyval \<Rightarrow> 'f price_bar option" where
  "parse_entry rt symbol ts_str vals =
     (case parse_values rt vals of
        Inl e \<Rightarrow> None
      | Inr (open_p, high_p, low_p, close_p, volume) \<Rightarrow>
          Some \<lparr>bar_symbol = strip symbol, bar_ts = ts_str, bar_open = open_p,
                bar_high = high_p, bar_low = low_p, bar_close = close_p,
                bar_volume = volume, bar_raw = vals\<rparr>)"

text \<open>The loop, with \<^verbatim>\<open>results\<close> as the accumulator.\<close>

fun parse_items ::
  "'f py_runtime \<Rightarrow> string \<Rightarrow> (string \<times> 'f pyval) list \<Rightarrow> 'f price_bar list \<Rightarrow> 'f price_bar list" where
  "parse_items rt symbol [] results = results"
| "parse_items rt symbol ((ts_str, vals) # rest) results =
     (case parse_entry rt symbol ts_str vals of
        None \<Rightarrow> parse_items rt symbol rest results
      | Some row \<Rightarrow> parse_items rt symbol rest (results @ [row]))"

text \<open>The first key that starts with \<^verbatim>\<open>Time Series\<close> (the \<^verbatim>\<open>for ... break\<close>).\<close>

fun find_ts_key :: "(string \<times> 'f pyval) list \<Rightarrow> string option" where
  "find_ts_key [] = None"
| "find_ts_key ((k, v) # rest) =
     (if startswith k ''Time Series'' then Some k else find_ts_key rest)"

text \<open>
  \<^verbatim>\<open>parse_daily_response(symbol, json_data)\<close>, with \<^verbatim>\<open>json_data\<close> a dict. Without a
  time-series key the result is the empty list. \<^verbatim>\<open>ts_map.items()\<close> is outside the
  \<^verbatim>\<open>try\<close>: a time-series value that is not a dict raises AttributeError out of the
  function.
\<close>

definition parse_daily_response ::
  "'f py_runtime \<Rightarrow> string \<Rightarrow> (string \<times> 'f pyval) list \<Rightarrow> py_exc + 'f price_bar list" where
  "parse_daily_response rt symbol json_data =
     (case find_ts_key json_data of
        None \<Rightarrow> Inr []
      | Some ts_key \<Rightarrow>
          (case dict_get json_data ts_key of
             PDict ts_map \<Rightarrow> Inr (parse_items rt symbol ts_map [])
           | other \<Rightarrow> Inl AttributeError))"

text \<open>
  Two conditions on one field of an entry \<open>d\<close>. The field is \<^emph>\<open>unparseable\<close> when the
  \<^verbatim>\<open>or\<close> chain selects a value and \<^verbatim>\<open>float\<close> raises on it (a string that is not a
  number, a list, a dict). A label is \<^emph>\<open>absent or empty\<close> when the entry has no such
  key or has the empty string there.
\<close>

definition unparseable_price ::
  "'f py_runtime \<Rightarrow> (string \<times> 'f pyval) list \<Rightarrow> string \<Rightarrow> string \<Rightarrow> bool" where
  "unparseable_price rt d k1 k2 =
     (case or_chain rt (PDict d) k1 k2 (PFloat (float_zero rt)) of
        Inl e \<Rightarrow> False
      | Inr v \<Rightarrow> (case py_float rt v of Inl e \<Rightarrow> True | Inr x \<Rightarrow> False))"


definition price_labels :: "(string \<times> string) list" where
  "price_labels =
     [(''1. open'', ''open''), (''2. high'', ''high''), (''3. low'', ''low''), (''4. close'', ''close'')]"

section \<open>The fetcher: \<^verbatim>\<open>fetch_daily_time_series\<close>\<close>

text \<open>
  What one \<^verbatim>\<open>session.get\<close> can do: raise (a \<^verbatim>\<open>requests.Timeout\<close> or
  \<^verbatim>\<open>requests.ConnectionError\<close>, a \<^verbatim>\<open>ValueError\<close>, or any other exception), or deliver
  a response with a status code and a body that \<^verbatim>\<open>resp.json()\<close> either decodes or
  rejects (a \<^verbatim>\<open>ValueError\<close>).
\<close>

datatype raised = NetworkError | RaisedValueError | RaisedOther

datatype 'f http_body = BadJSON | Decoded "'f pyval"

datatype 'f http_outcome = Raises raised | Response int "'f http_body"

text \<open>The \<^verbatim>\<open>params\<close> dict of the request.\<close>

record query =
  q_function :: string
  q_symbol :: string
  q_outputsize :: string
  q_apikey :: string

definition params :: "string \<Rightarrow> string \<Rightarrow> query" where
  "params symbol api_key =
     \<lparr>q_function = ''TIME_SERIES_DAILY_ADJUSTED'', q_symbol = strip symbol,
      q_outputsize = ''compact'', q_apikey = api_key\<rparr>"

text \<open>
  Where the body of the \<^verbatim>\<open>try\<close> goes on one attempt, up to the first call of
  \<^verbatim>\<open>_sleep_backoff\<close>: to the sleep inside the \<^verbatim>\<open>try\<close> (a server error, a rate-limit
  note, an unexpected structure), to the sleep inside a handler (a network error or
  any other exception; both handlers do the same), or to a \<^verbatim>\<open>return\<close>.
\<close>

datatype 'f try_result = SleepInTry | SleepInHandler | Returns "'f pyval option"

definition has_key :: "(string \<times> 'f pyval) list \<Rightarrow> string \<Rightarrow> bool" where
  "has_key kvs k = (k \<in> set (map fst kvs))"

text \<open>
  The checks on the decoded body, in the order of the source. A body that is not a dict
  ends in \<^verbatim>\<open>except Exception\<close> on every path: \<^verbatim>\<open>"Note" in data\<close> is a TypeError
  for a number, a boolean or null; for a list or a string, \<^verbatim>\<open>data['Note']\<close> and
  \<^verbatim>\<open>data["Error Message"]\<close> (evaluated for the log line) are TypeErrors and
  \<^verbatim>\<open>data.keys()\<close> is an AttributeError.
\<close>

definition check_data :: "'f pyval \<Rightarrow> 'f try_result" where
  "check_data data =
     (case data of
        PDict kvs \<Rightarrow>
          if has_key kvs ''Note'' then SleepInTry
          else if has_key kvs ''Error Message'' then Returns None
          else if \<not> list_ex (\<lambda>k. startswith k ''Time Series'') (map fst kvs) then SleepInTry
          else Returns (Some data)
      | other \<Rightarrow> SleepInHandler)"

text \<open>
  The body of the \<^verbatim>\<open>try\<close>. A status from 500 to 599 is retried before anything
  else; \<^verbatim>\<open>resp.raise_for_status()\<close> raises \<^verbatim>\<open>HTTPError\<close> for the remaining statuses
  from 400 on, which \<^verbatim>\<open>except Exception\<close> catches. A ValueError of the request or
  of \<^verbatim>\<open>resp.json()\<close> is caught by \<^verbatim>\<open>except ValueError\<close>, which returns None.
\<close>

definition try_body :: "'f http_outcome \<Rightarrow> 'f try_result" where
  "try_body outcome =
     (case outcome of
        Raises NetworkError \<Rightarrow> SleepInHandler
      | Raises RaisedValueError \<Rightarrow> Returns None
      | Raises RaisedOther \<Rightarrow> SleepInHandler
      | Response status_code body \<Rightarrow>
          if 500 \<le> status_code \<and> status_code < 600 then SleepInTry
          else if 400 \<le> status_code \<and> status_code < 600 then SleepInHandler
          else (case body of
                  BadJSON \<Rightarrow> Returns None
                | Decoded data \<Rightarrow> check_data data))"

text \<open>
  What a call of \<^verbatim>\<open>_sleep_backoff(attempt)\<close> can do. The delay
  \<^verbatim>\<open>BACKOFF_BASE * 2 ** attempt\<close>, times the random jitter, is a float and is not
  computed here: the call returns after sleeping, or \<^verbatim>\<open>time.sleep\<close> raises ValueError
  (a negative delay, from a negative \<^verbatim>\<open>FETCH_BACKOFF_BASE\<close>, or a NaN), or the call
  raises OverflowError (a delay too large for the clock or for a float). One attempt
  calls it at most once inside the \<^verbatim>\<open>try\<close> and at most once inside a handler; the
  jitter is drawn anew in each call, so the two calls are told apart.
\<close>

datatype sleep_outcome = Slept | SleepValueError | SleepOverflowError

datatype sleep_site = InTry | InHandler

type_synonym sleeper = "nat \<Rightarrow> sleep_site \<Rightarrow> sleep_outcome"

text \<open>
  How one pass through the body of the \<^verbatim>\<open>for\<close> loop ends: with \<^verbatim>\<open>continue\<close>, with
  \<^verbatim>\<open>return\<close>, or with an exception that leaves the function.
\<close>

datatype 'f attempt_result = Continue | Return "'f pyval option" | Raise py_exc

text \<open>
  What the fetcher does to the outside: the requests it issues and the calls of
  \<^verbatim>\<open>_sleep_backoff\<close> (whether they return or raise), each with the value of
  \<^verbatim>\<open>attempt\<close>.
\<close>

datatype fetch_event = HttpGet nat | Backoff nat

text \<open>
  The sleep inside a handler: an exception raised there is not caught by the other
  \<^verbatim>\<open>except\<close> clauses and leaves \<^verbatim>\<open>fetch_daily_time_series\<close>.
\<close>

definition sleep_in_handler :: "sleeper \<Rightarrow> nat \<Rightarrow> 'f attempt_result \<times> fetch_event list" where
  "sleep_in_handler sleep attempt =
     (case sleep attempt InHandler of
        Slept \<Rightarrow> (Continue, [Backoff attempt])
      | SleepValueError \<Rightarrow> (Raise ValueError, [Backoff attempt])
      | SleepOverflowError \<Rightarrow> (Raise OverflowError, [Backoff attempt]))"

text \<open>
  The sleep inside the \<^verbatim>\<open>try\<close>: its ValueError is caught by \<^verbatim>\<open>except ValueError\<close>,
  which returns None; its OverflowError is caught by \<^verbatim>\<open>except Exception\<close>, which
  calls \<^verbatim>\<open>_sleep_backoff(attempt)\<close> again.
\<close>

definition sleep_in_try :: "sleeper \<Rightarrow> nat \<Rightarrow> 'f attempt_result \<times> fetch_event list" where
  "sleep_in_try sleep attempt =
     (case sleep attempt InTry of
        Slept \<Rightarrow> (Continue, [Backoff attempt])
      | SleepValueError \<Rightarrow> (Return None, [Backoff attempt])
      | SleepOverflowError \<Rightarrow>
          (case sleep_in_handler sleep attempt of
             (r, events) \<Rightarrow> (r, Backoff attempt # events)))"

text \<open>One attempt: the request, then what the body of the \<^verbatim>\<open>try\<close> leads to.\<close>

definition attempt_once ::
  "sleeper \<Rightarrow> nat \<Rightarrow> 'f http_outcome \<Rightarrow> 'f attempt_result \<times> fetch_event list" where
  "attempt_once sleep attempt outcome =
     (case (case try_body outcome of
              SleepInTry \<Rightarrow> sleep_in_try sleep attempt
            | SleepInHandler \<Rightarrow> sleep_in_handler sleep attempt
            | Returns r \<Rightarrow> (Return r, [])) of
        (r, events) \<Rightarrow> (r, HttpGet attempt # events))"

text \<open>
  The loop \<^verbatim>\<open>for attempt in range(MAX_RETRIES)\<close>: the third argument counts the
  iterations left, the fourth is \<^verbatim>\<open>attempt\<close>. Leaving the loop at its end returns
  None. The result is \<open>Inr\<close> of the returned value or \<open>Inl\<close> of the exception that left
  the function.
\<close>

fun fetch_attempts ::
  "(nat \<Rightarrow> 'f http_outcome) \<Rightarrow> sleeper \<Rightarrow> nat \<Rightarrow> nat
     \<Rightarrow> (py_exc + 'f pyval option) \<times> fetch_event list" where
  "fetch_attempts get sleep 0 attempt = (Inr None, [])"
| "fetch_attempts get sleep (Suc n) attempt =
     (case attempt_once sleep attempt (get attempt) of
        (Return r, events) \<Rightarrow> (Inr r, events)
      | (Raise e, events) \<Rightarrow> (Inl e, events)
      | (Continue, events) \<Rightarrow>
          (case fetch_attempts get sleep n (Suc attempt) of
             (r, events') \<Rightarrow> (r, events @ events')))"

text \<open>
  \<^verbatim>\<open>fetch_daily_time_series(symbol, api_key)\<close>. \<open>max_retries\<close> is the module's
  \<^verbatim>\<open>MAX_RETRIES\<close>, \<open>env_api_key\<close> is \<^verbatim>\<open>os.getenv("API_KEY")\<close>, \<open>get\<close> answers the
  request of each attempt and \<open>sleep\<close> each call of \<^verbatim>\<open>_sleep_backoff\<close>. The result is
  the returned value or the raised exception, with the events.
\<close>

definition fetch_daily_time_series ::
  "int \<Rightarrow> string option \<Rightarrow> (query \<Rightarrow> nat \<Rightarrow> 'f http_outcome) \<Rightarrow> sleeper \<Rightarrow> string \<Rightarrow> string option
     \<Rightarrow> (py_exc + 'f pyval option) \<times> fetch_event list" where
  "fetch_daily_time_series max_retries env_api_key get sleep symbol api_key =
     (case (case api_key of None \<Rightarrow> env_api_key | Some k \<Rightarrow> Some k) of
        None \<Rightarrow> (Inr None, [])
      | Some k \<Rightarrow>
          if k = [] then (Inr None, [])
          else fetch_attempts (get (params symbol k)) sleep (nat max_retries) 0)"

definition requests_made :: "fetch_event list \<Rightarrow> nat" where
  "requests_made events = length (filter (\<lambda>e. case e of HttpGet a \<Rightarrow> True | Backoff a \<Rightarrow> False) events)"

section \<open>The store: \<^verbatim>\<open>upsert_stock_rows\<close>\<close>

text \<open>One tuple handed to \<^verbatim>\<open>execute_values\<close>; \<open>t_raw\<close> is \<^verbatim>\<open>raw_json\<close>.\<close>

record 'f db_row =
  t_symbol :: string
  t_ts :: string
  t_open :: 'f
  t_high :: 'f
  t_low :: 'f
  t_close :: 'f
  t_volume :: int
  t_raw :: "string option"

text \<open>
  \<^verbatim>\<open>json.dumps\<close> (\<open>None\<close>: it raised) and \<^verbatim>\<open>str\<close>, the two library functions that
  turn the raw value into text.
\<close>

record 'f serializer =
  json_dumps :: "'f pyval \<Rightarrow> string option"
  py_str :: "'f pyval \<Rightarrow> string"

definition to_tuple :: "'f serializer \<Rightarrow> 'f price_bar \<Rightarrow> 'f db_row" where
  "to_tuple ser r =
     \<lparr>t_symbol = bar_symbol r, t_ts = bar_ts r, t_open = bar_open r, t_high = bar_high r,
      t_low = bar_low r, t_close = bar_close r, t_volume = bar_volume r,
      t_raw =
        (case bar_raw r of
           PNone \<Rightarrow> None
         | PStr s \<Rightarrow> Some s
         | other \<Rightarrow>
             Some (case json_dumps ser other of Some s \<Rightarrow> s | None \<Rightarrow> py_str ser other))\<rparr>"

text \<open>
  \<^verbatim>\<open>range(start, stop, step)\<close> as the list of its values, and the slice
  \<^verbatim>\<open>xs[i:j]\<close> (a negative bound counts from the end, a bound past the end is cut).
\<close>

definition py_range :: "int \<Rightarrow> int \<Rightarrow> int \<Rightarrow> py_exc + int list" where
  "py_range start stop step =
     (if step = 0 then Inl ValueError
      else if 0 < step then
        Inr (map (\<lambda>k. start + int k * step) [0 ..< nat ((stop - start + step - 1) div step)])
      else
        Inr (map (\<lambda>k. start + int k * step) [0 ..< nat ((start - stop - step - 1) div (- step))]))"

definition clamp_index :: "nat \<Rightarrow> int \<Rightarrow> nat" where
  "clamp_index n i = (if i < 0 then nat (int n + i) else min (nat i) n)"

definition py_slice :: "'a list \<Rightarrow> int \<Rightarrow> int \<Rightarrow> 'a list" where
  "py_slice xs i j =
     (let lo = clamp_index (length xs) i; hi = clamp_index (length xs) j
      in take (hi - lo) (drop lo xs))"

text \<open>
  The database, seen from the code: the fate of the \<^verbatim>\<open>execute_values\<close> call (with its
  commit) made for the batch that starts at index \<open>i\<close>, on its attempt number \<open>a\<close>.
\<close>

datatype db_outcome = Committed | OperationalError | OtherDbError

type_synonym 'f database = "int \<Rightarrow> nat \<Rightarrow> 'f db_row list \<Rightarrow> db_outcome"

text \<open>
  The events of the store: a call of \<^verbatim>\<open>execute_values\<close> (start index, attempt, batch)
  and a backoff sleep \<^verbatim>\<open>_sleep_backoff(batch_attempt)\<close>. The sleeps of the store
  are taken to return: a run in which a batch fails on every one of its attempts, or
  in which every write succeeds, is one whose sleeps returned.
\<close>

datatype 'f db_event = DbWrite int nat "'f db_row list" | DbSleep nat

text \<open>
  The \<^verbatim>\<open>while batch_attempt < DB_MAX_RETRIES\<close> loop of one batch. Both \<^verbatim>\<open>except\<close>
  clauses do the same: raise RuntimeError once the attempts are used up, otherwise
  sleep and go round again. The result is \<open>Inr True\<close> after \<^verbatim>\<open>break\<close> (the batch is
  counted) and \<open>Inr False\<close> when the loop ends on its condition.
\<close>

function write_batch ::
  "'f database \<Rightarrow> int \<Rightarrow> int \<Rightarrow> 'f db_row list \<Rightarrow> nat \<Rightarrow> (py_exc + bool) \<times> 'f db_event list" where
  "write_batch db max_retries i batch batch_attempt =
     (if int batch_attempt < max_retries then
        (case db i (Suc batch_attempt) batch of
           Committed \<Rightarrow> (Inr True, [DbWrite i (Suc batch_attempt) batch])
         | failure \<Rightarrow>
             if max_retries \<le> int (Suc batch_attempt) then
               (Inl (RuntimeError ''Failed to upsert batch after retries''),
                [DbWrite i (Suc batch_attempt) batch])
             else
               (case write_batch db max_retries i batch (Suc batch_attempt) of
                  (r, events) \<Rightarrow>
                    (r, DbWrite i (Suc batch_attempt) batch # DbSleep (Suc batch_attempt) # events)))
      else (Inr False, []))"
  by pat_completeness auto
termination
  by (relation "measure (\<lambda>(db, max_retries, i, batch, batch_attempt). nat max_retries - batch_attempt)") auto

declare write_batch.simps [simp del]

text \<open>
  The loop \<^verbatim>\<open>for i in range(0, len(tuples), batch_size)\<close> over the values of the
  range, with \<^verbatim>\<open>total\<close> as \<open>total_n\<close>. An exception of a batch ends the call.
\<close>

fun upsert_batches ::
  "'f database \<Rightarrow> int \<Rightarrow> int \<Rightarrow> 'f db_row list \<Rightarrow> int list \<Rightarrow> int
     \<Rightarrow> (py_exc + int) \<times> 'f db_event list" where
  "upsert_batches db max_retries batch_size tuples [] total_n = (Inr total_n, [])"
| "upsert_batches db max_retries batch_size tuples (i # rest) total_n =
     (let batch = py_slice tuples i (i + batch_size)
      in case write_batch db max_retries i batch 0 of
           (Inl e, events) \<Rightarrow> (Inl e, events)
         | (Inr counted, events) \<Rightarrow>
             (case upsert_batches db max_retries batch_size tuples rest
                     (if counted then total_n + int (length batch) else total_n) of
                (r, events') \<Rightarrow> (r, events @ events')))"

text \<open>
  \<^verbatim>\<open>upsert_stock_rows(rows, batch_size)\<close>; \<open>max_retries\<close> is the module's
  \<^verbatim>\<open>DB_MAX_RETRIES\<close>. The result is the returned total or the raised exception, with
  the database calls and sleeps made.
\<close>

definition upsert_stock_rows ::
  "'f serializer \<Rightarrow> 'f database \<Rightarrow> int \<Rightarrow> 'f price_bar list \<Rightarrow> int
     \<Rightarrow> (py_exc + int) \<times> 'f db_event list" where
  "upsert_stock_rows ser db max_retries rows batch_size =
     (if rows = [] then (Inr 0, [])
      else
        (let tuples = map (to_tuple ser) rows
         in case py_range 0 (int (length tuples)) batch_size of
              Inl e \<Rightarrow> (Inl e, [])
            | Inr offsets \<Rightarrow> upsert_batches db max_retries batch_size tuples offsets 0))"

text \<open>
  The batches handed to the database by the events of a run, in order, and whether a
  text occurs inside another.
\<close>

fun written :: "'f db_event list \<Rightarrow> 'f db_row list list" where
  "written [] = []"
| "written (DbWrite i a batch # events) = batch # written events"
| "written (DbSleep a # events) = written events"

fun occurs_in :: "string \<Rightarrow> string \<Rightarrow> bool" where
  "occurs_in p [] = (p = [])"
| "occurs_in p (c # s) = (startswith (c # s) p \<or> occurs_in p s)"

section \<open>A runtime for evaluating examples\<close>

text \<open>
  To run the model on a concrete payload the builtins need values. In this runtime a
  float is the rational number its decimal numeral denotes. \<open>dec_float_of_str\<close> and
  \<open>dec_int_of_str\<close> read an unsigned decimal numeral without exponent and reject
  every other string; CPython reads such a numeral the same way (up to rounding to a
  double) and rejects a string that contains a letter outside a numeral, such as
  \<^verbatim>\<open>abc\<close>. The examples use only such strings.
\<close>

definition is_digit :: "char \<Rightarrow> bool" where
  "is_digit c = (48 \<le> (of_char c :: nat) \<and> (of_char c :: nat) \<le> 57)"

definition digits_val :: "string \<Rightarrow> nat" where
  "digits_val s = foldl (\<lambda>a c. 10 * a + ((of_char c :: nat) - 48)) 0 s"

definition dec_int_of_str :: "string \<Rightarrow> int option" where
  "dec_int_of_str s = (if s \<noteq> [] \<and> list_all is_digit s then Some (int (digits_val s)) else None)"

definition dec_float_of_str :: "string \<Rightarrow> rat option" where
  "dec_float_of_str s =
     (let ip = takeWhile (\<lambda>c. c \<noteq> CHR ''.'') s;
          fp = drop (Suc (length ip)) s
      in if (ip \<noteq> [] \<or> fp \<noteq> []) \<and> list_all is_digit ip \<and> list_all is_digit fp
         then Some (of_nat (digits_val (ip @ fp)) / 10 ^ length fp)
         else None)"

definition dec_rt :: "rat py_runtime" where
  "dec_rt =
     \<lparr>float_zero = 0, float_nonzero = (\<lambda>x. x \<noteq> 0), float_of_str = dec_float_of_str,
      float_of_int = (\<lambda>i. Some (of_int i)),
      int_of_float = (\<lambda>x. Inr (if 0 \<le> x then \<lfloor>x\<rfloor> else \<lceil>x\<rceil>)),
      int_of_str = dec_int_of_str\<rparr>"


section \<open>Conditions on responses\<close>

text \<open>
  The body that \<^verbatim>\<open>resp.json()\<close> returns on an attempt, when the code gets to decode
  one: the request delivered a response, its status is not one the code retries or
  raises on, and the body is JSON.
\<close>

definition decoded_body :: "'f http_outcome \<Rightarrow> 'f pyval option" where
  "decoded_body outcome =
     (case outcome of
        Response status_code (Decoded data) \<Rightarrow>
          if 400 \<le> status_code \<and> status_code < 600 then None else Some data
      | other \<Rightarrow> None)"

text \<open>A delivered body, whatever the status, that is a JSON object with the key \<^verbatim>\<open>Note\<close>.\<close>

definition rate_limited :: "'f http_outcome \<Rightarrow> bool" where
  "rate_limited outcome =
     (case outcome of
        Response status_code (Decoded (PDict kvs)) \<Rightarrow> has_key kvs ''Note''
      | other \<Rightarrow> False)"

text \<open>
  The events of the attempts \<open>a, a + 1, ...\<close> below \<open>b\<close> when each one is retried after
  one sleep that returns.
\<close>

definition retried :: "nat \<Rightarrow> nat \<Rightarrow> fetch_event list" where
  "retried a b = concat (map (\<lambda>attempt. [HttpGet attempt, Backoff attempt]) [a ..< b])"

definition api_key_used :: "string option \<Rightarrow> string option \<Rightarrow> string option" where
  "api_key_used api_key env_api_key = (case api_key of None \<Rightarrow> env_api_key | Some k \<Rightarrow> Some k)"

section \<open>Chunks, as the specification describes them\<close>

text \<open>
  The consecutive chunks of size \<open>c\<close> of a list: chunk number \<open>k\<close> holds the elements
  from position \<open>k * c\<close> up to, not including, position \<open>(k + 1) * c\<close>, and there are
  \<open>\<lceil>n / c\<rceil>\<close> of them. The loop of \<open>upsert_stock_rows\<close> is compared with this.
\<close>

definition consecutive_chunks :: "nat \<Rightarrow> 'a list \<Rightarrow> 'a list list" where
  "consecutive_chunks c xs =
     map (\<lambda>k. take c (drop (k * c) xs)) [0 ..< (length xs + c - 1) div c]"

text \<open>The message of the error that \<open>write_batch\<close> raises.\<close>

definition upsert_failure :: py_exc where
  "upsert_failure = RuntimeError ''Failed to upsert batch after retries''"

section \<open>Example inputs\<close>

text \<open>
  Concrete payloads, responses and databases on which the model is run below. The entry
  \<open>example_entry\<close> is the one of the specification's example. \<open>plain_ser\<close> stands for
  the serializer of the raw field (every \<^verbatim>\<open>json.dumps\<close> falls back to \<^verbatim>\<open>str\<close>); the
  properties of the store do not depend on it. \<open>db_up\<close> commits every call, \<open>db_down\<close>
  fails every call with an OperationalError, and \<open>db_second_chunk_down\<close> fails every call
  for the batch that starts at index 2.
\<close>

definition example_entry :: "rat pyval" where
  "example_entry =
     PDict [(''1. open'', PStr ''10.5''), (''2. high'', PStr ''11.0''), (''3. low'', PStr ''10.0''),
            (''4. close'', PStr ''10.8''), (''6. volume'', PStr ''1000'')]"

definition example_payload :: "(string \<times> rat pyval) list" where
  "example_payload =
     [(''Meta Data'', PDict [(''2. Symbol'', PStr ''AAPL'')]),
      (''Time Series (Daily)'', PDict [(''2024-01-02'', example_entry)])]"

definition example_bar :: "rat price_bar" where
  "example_bar =
     \<lparr>bar_symbol = ''AAPL'', bar_ts = ''2024-01-02'', bar_open = 10.5, bar_high = 11.0,
      bar_low = 10.0, bar_close = 10.8, bar_volume = 1000, bar_raw = example_entry\<rparr>"

definition bad_open_entry :: "(string \<times> rat pyval) list" where
  "bad_open_entry =
     [(''1. open'', PStr ''abc''), (''2. high'', PStr ''11.0''), (''3. low'', PStr ''10.0''),
      (''4. close'', PStr ''10.8''), (''6. volume'', PStr ''1000'')]"


definition gap_payload :: "(string \<times> rat pyval) list" where
  "gap_payload =
     [(''Time Series (Daily)'',
       PDict [(''2024-01-03'', example_entry), (''2024-01-02'', PStr ''n/a''),
              (''2024-01-01'', example_entry)])]"

definition bad_open_payload :: "(string \<times> rat pyval) list" where
  "bad_open_payload =
     [(''Time Series (Daily)'',
       PDict [(''2024-01-03'', PDict bad_open_entry), (''2024-01-02'', example_entry)])]"

definition note_body :: "(string \<times> rat pyval) list" where
  "note_body = [(''Note'', PStr ''Thank you for using Alpha Vantage! Please retry later.'')]"

definition always_note :: "query \<Rightarrow> nat \<Rightarrow> rat http_outcome" where
  "always_note q attempt = Response 200 (Decoded (PDict note_body))"

definition note_with_client_error :: "query \<Rightarrow> nat \<Rightarrow> rat http_outcome" where
  "note_with_client_error q attempt = Response 429 (Decoded (PDict note_body))"

definition error_body :: "(string \<times> rat pyval) list" where
  "error_body = [(''Error Message'', PStr ''Invalid API call.'')]"

definition note_and_error_body :: "(string \<times> rat pyval) list" where
  "note_and_error_body =
     [(''Note'', PStr ''Thank you for using Alpha Vantage! Please retry later.''),
      (''Error Message'', PStr ''Invalid API call.'')]"

definition note_then_error :: "query \<Rightarrow> nat \<Rightarrow> rat http_outcome" where
  "note_then_error q attempt =
     (if attempt = 0 then Response 200 (Decoded (PDict note_body))
      else Response 200 (Decoded (PDict error_body)))"

definition sleeps_return :: sleeper where
  "sleeps_return attempt site = Slept"

definition sleeps_negative :: sleeper where
  "sleeps_negative attempt site = SleepValueError"

definition sleeps_oversized :: sleeper where
  "sleeps_oversized attempt site = SleepOverflowError"

definition plain_ser :: "rat serializer" where
  "plain_ser = \<lparr>json_dumps = (\<lambda>v. None), py_str = (\<lambda>v. ''{...}'')\<rparr>"

definition db_up :: "rat database" where
  "db_up i a batch = Committed"

definition db_down :: "rat database" where
  "db_down i a batch = OperationalError"

definition db_second_chunk_down :: "rat database" where
  "db_second_chunk_down i a batch = (if i = 2 then OtherDbError else Committed)"

section \<open>Properties of the normalizer\<close>

text \<open>
  The accumulator of the loop only grows at its end, so the loop over a mapping is the
  concatenation of what each entry contributes.
\<close>

lemma parse_items_acc:
  "parse_items rt symbol items results = results @ parse_items rt symbol items []"
proof (induction items arbitrary: results)
  case Nil
  show ?case by simp
next
  case (Cons entry items)
  obtain ts_str vals where entry: "entry = (ts_str, vals)" by (cases entry)
  show ?case
  proof (cases "parse_entry rt symbol ts_str vals")
    case None
    then show ?thesis using Cons.IH [of results] by (simp add: entry)
  next
    case (Some row)
    then show ?thesis
      using Cons.IH [of "results @ [row]"] Cons.IH [of "[row]"] by (simp add: entry)
  qed
qed

lemma parse_items_Cons:
  "parse_items rt symbol ((ts_str, vals) # rest) [] =
     (case parse_entry rt symbol ts_str vals of None \<Rightarrow> [] | Some row \<Rightarrow> [row])
       @ parse_items rt symbol rest []"
proof (cases "parse_entry rt symbol ts_str vals")
  case None
  then show ?thesis by simp
next
  case (Some row)
  then show ?thesis using parse_items_acc [of rt symbol rest "[row]"] by simp
qed

lemma parse_items_append:
  "parse_items rt symbol (xs @ ys) [] = parse_items rt symbol xs [] @ parse_items rt symbol ys []"
  by (induction xs) (auto simp: parse_items_Cons simp del: parse_items.simps(2))

lemma parse_items_map_filter:
  "parse_items rt symbol items [] =
     List.map_filter (\<lambda>(ts_str, vals). parse_entry rt symbol ts_str vals) items"
  by (induction items)
     (auto simp: parse_items_Cons List.map_filter_simps simp del: parse_items.simps(2) split: option.splits)

lemma parse_entry_Some:
  "parse_entry rt symbol ts_str vals = Some row \<Longrightarrow>
     bar_symbol row = strip symbol \<and> bar_ts row = ts_str \<and> bar_raw row = vals \<and>
     parse_values rt vals =
       Inr (bar_open row, bar_high row, bar_low row, bar_close row, bar_volume row)"
  by (auto simp: parse_entry_def split: sum.splits prod.splits)

lemma parse_entry_None: "parse_entry rt symbol ts_str vals = None \<longleftrightarrow> (\<exists>e. parse_values rt vals = Inl e)"
  by (auto simp: parse_entry_def split: sum.splits prod.splits)

lemma parse_items_all_ok:
  "\<forall>(ts_str, vals) \<in> set items. \<exists>r. parse_values rt vals = Inr r \<Longrightarrow>
   map Some (parse_items rt symbol items []) = map (\<lambda>(ts_str, vals). parse_entry rt symbol ts_str vals) items"
proof (induction items)
  case Nil
  show ?case by simp
next
  case (Cons entry items)
  obtain ts_str vals where entry: "entry = (ts_str, vals)" by (cases entry)
  from Cons.prems obtain r where "parse_values rt vals = Inr r" by (auto simp: entry)
  then obtain row where "parse_entry rt symbol ts_str vals = Some row"
    by (cases "parse_entry rt symbol ts_str vals") (auto simp: parse_entry_None)
  then show ?case using Cons by (simp add: entry parse_items_Cons del: parse_items.simps(2))
qed

lemma price_of_unparseable:
  "unparseable_price rt d k1 k2 \<Longrightarrow> \<exists>e. price_of rt (PDict d) k1 k2 = Inl e"
  by (auto simp: unparseable_price_def price_of_def split: sum.splits)

lemma parse_values_unparseable:
  assumes "(k1, k2) \<in> set price_labels" and "unparseable_price rt d k1 k2"
  shows "\<exists>e. parse_values rt (PDict d) = Inl e"
  using assms(1) price_of_unparseable [OF assms(2)]
  by (auto simp: price_labels_def parse_values_def split: sum.splits)


lemmas eval_defs =
  parse_daily_response_def startswith_def dict_get_def parse_entry_def parse_values_def
  price_of_def volume_of_def or_chain_def dec_rt_def dec_float_of_str_def dec_int_of_str_def
  is_digit_def digits_val_def strip_def py_isspace_def

lemma example_entry_row: "parse_entry dec_rt ''AAPL'' ''2024-01-02'' example_entry = Some example_bar"
  by (simp add: eval_defs example_entry_def example_bar_def)

text \<open>
  Claim C4. For every symbol and every payload whose time-series entries all parse
  without error, \<^verbatim>\<open>parse_daily_response\<close> returns one row per entry of the time-series
  mapping, in the order of the mapping: the rows are as many as the entries, their
  timestamps are the keys in order, and each row is the one its entry parses to. The
  entry of the specification's example, for the date 2024-01-02 and the symbol AAPL,
  gives the row with open 10.5, high 11.0, low 10.0, close 10.8 and volume 1000.
\<close>

theorem normalize_one_bar_per_entry:
  assumes "find_ts_key json_data = Some ts_key"
    and "dict_get json_data ts_key = PDict ts_map"
    and "\<forall>(ts_str, vals) \<in> set ts_map. \<exists>r. parse_values rt vals = Inr r"
  shows "(\<exists>rows. parse_daily_response rt symbol json_data = Inr rows \<and>
            length rows = length ts_map \<and>
            map bar_ts rows = map fst ts_map \<and>
            map Some rows = map (\<lambda>(ts_str, vals). parse_entry rt symbol ts_str vals) ts_map) \<and>
         parse_daily_response dec_rt ''AAPL'' example_payload = Inr [example_bar]"
proof -
  let ?rows = "parse_items rt symbol ts_map []"
  have res: "parse_daily_response rt symbol json_data = Inr ?rows"
    using assms(1,2) by (simp add: parse_daily_response_def)
  have rows: "map Some ?rows = map (\<lambda>(ts_str, vals). parse_entry rt symbol ts_str vals) ts_map"
    using assms(3) by (rule parse_items_all_ok)
  have len: "length ?rows = length ts_map"
    using arg_cong [OF rows, of length] by simp
  have "map (map_option bar_ts) (map Some ?rows) = map (\<lambda>e. Some (fst e)) ts_map"
    unfolding rows using assms(3)
    by (auto simp: parse_entry_def split: sum.splits prod.splits)
  then have "map Some (map bar_ts ?rows) = map Some (map fst ts_map)"
    by (simp add: comp_def)
  then have ts: "map bar_ts ?rows = map fst ts_map"
    by (simp add: inj_map_eq_map del: map_map)
  have ex: "parse_daily_response dec_rt ''AAPL'' example_payload = Inr [example_bar]"
    using example_entry_row
    by (simp add: example_payload_def parse_daily_response_def startswith_def dict_get_def)
  show ?thesis using res rows len ts ex by blast
qed

theorem normalize_one_bar_per_entry_witness:
  "find_ts_key example_payload = Some ''Time Series (Daily)'' \<and>
   dict_get example_payload ''Time Series (Daily)'' = PDict [(''2024-01-02'', example_entry)] \<and>
   parse_values dec_rt example_entry = Inr (10.5, 11.0, 10.0, 10.8, 1000) \<and>
   (\<exists>rows. parse_daily_response dec_rt ''AAPL'' example_payload = Inr rows \<and> length rows = 1 \<and>
       map bar_ts rows = [''2024-01-02''])"
proof -
  have k: "find_ts_key example_payload = Some ''Time Series (Daily)''"
    by (simp add: example_payload_def startswith_def)
  have m: "dict_get example_payload ''Time Series (Daily)'' = PDict [(''2024-01-02'', example_entry)]"
    by (simp add: example_payload_def dict_get_def)
  have v: "parse_values dec_rt example_entry = Inr (10.5, 11.0, 10.0, 10.8, 1000)"
    by (simp add: eval_defs example_entry_def)
  have "\<exists>r. parse_values dec_rt example_entry = Inr r"
    by (rule exI, rule v)
  then have ok: "\<forall>(ts_str, vals) \<in> set [(''2024-01-02'', example_entry)]. \<exists>r. parse_values dec_rt vals = Inr r"
    by simp
  show ?thesis
    using normalize_one_bar_per_entry [OF k m ok, of "''AAPL''"] k m v
    by (auto simp: example_bar_def)
qed

text \<open>
  Claim C7. When the parsing of an entry of the time-series mapping throws, only that
  entry is left out: the result is, in order, the row of every other entry that parses
  (\<open>parse_entry\<close> is \<open>Some\<close> exactly for those), whatever stands before or after the
  bad entry.
\<close>

theorem bad_entry_skipped_rest_kept:
  assumes "find_ts_key json_data = Some ts_key"
    and "dict_get json_data ts_key = PDict (before @ (ts_str, bad) # after)"
    and "parse_values rt bad = Inl e"
  shows "parse_daily_response rt symbol json_data =
           Inr (List.map_filter (\<lambda>(ts_str, vals). parse_entry rt symbol ts_str vals) (before @ after))"
proof -
  have "parse_entry rt symbol ts_str bad = None"
    using assms(3) by (simp add: parse_entry_def)
  then have "parse_items rt symbol (before @ (ts_str, bad) # after) [] =
               parse_items rt symbol (before @ after) []"
    by (simp add: parse_items_append parse_items_Cons del: parse_items.simps(2))
  then show ?thesis
    using assms(1,2) by (simp add: parse_daily_response_def parse_items_map_filter)
qed

theorem bad_entry_skipped_rest_kept_witness:
  "find_ts_key gap_payload = Some ''Time Series (Daily)'' \<and>
   parse_values dec_rt (PStr ''n/a'') = Inl AttributeError \<and>
   parse_daily_response dec_rt ''AAPL'' gap_payload =
     Inr [example_bar\<lparr>bar_ts := ''2024-01-03''\<rparr>, example_bar\<lparr>bar_ts := ''2024-01-01''\<rparr>]"
proof -
  have k: "find_ts_key gap_payload = Some ''Time Series (Daily)''"
    by (simp add: gap_payload_def startswith_def)
  have m: "dict_get gap_payload ''Time Series (Daily)'' =
             PDict ([(''2024-01-03'', example_entry)] @ (''2024-01-02'', PStr ''n/a'') #
                    [(''2024-01-01'', example_entry)])"
    by (simp add: gap_payload_def dict_get_def)
  have b: "parse_values dec_rt (PStr ''n/a'') = Inl AttributeError"
    by (simp add: parse_values_def price_of_def or_chain_def)
  have r: "parse_entry dec_rt ''AAPL'' ts example_entry = Some (example_bar\<lparr>bar_ts := ts\<rparr>)" for ts
    by (simp add: eval_defs example_entry_def example_bar_def)
  show ?thesis
    using bad_entry_skipped_rest_kept [OF k m b, of "''AAPL''"] k b
    by (simp add: List.map_filter_simps r)
qed

text \<open>
  Claim C1 says that an entry with one unparseable price field still yields a row, with
  0.0 in that field. The code has one \<^verbatim>\<open>try\<close> around all five conversions: on the entry
  of the example with \<^verbatim>\<open>abc\<close> as its open price, where the four other fields parse,
  \<^verbatim>\<open>float("abc")\<close> raises and no row is emitted.
\<close>

theorem unparseable_field_rejects_entry_counterexample:
  "unparseable_price dec_rt bad_open_entry ''1. open'' ''open'' \<and>
   price_of dec_rt (PDict bad_open_entry) ''2. high'' ''high'' = Inr 11.0 \<and>
   price_of dec_rt (PDict bad_open_entry) ''3. low'' ''low'' = Inr 10.0 \<and>
   price_of dec_rt (PDict bad_open_entry) ''4. close'' ''close'' = Inr 10.8 \<and>
   volume_of dec_rt (PDict bad_open_entry) = Inr 1000 \<and>
   parse_daily_response dec_rt ''AAPL''
       [(''Time Series (Daily)'', PDict [(''2024-01-02'', PDict bad_open_entry)])] = Inr [] \<and>
   parse_daily_response dec_rt ''AAPL''
       [(''Time Series (Daily)'', PDict [(''2024-01-02'', PDict bad_open_entry)])] \<noteq>
     Inr [\<lparr>bar_symbol = ''AAPL'', bar_ts = ''2024-01-02'', bar_open = 0, bar_high = 11.0,
           bar_low = 10.0, bar_close = 10.8, bar_volume = 1000, bar_raw = PDict bad_open_entry\<rparr>]"
  by (simp add: eval_defs unparseable_price_def bad_open_entry_def)

text \<open>
  Claim C1, amended. If the value selected for one of the open, high, low and close
  fields of an entry is a string that \<^verbatim>\<open>float\<close> rejects, the whole entry is skipped: no
  row is emitted for it, and the entries before and after it are processed as if it were
  not there.
\<close>

theorem unparseable_field_skips_entry:
  assumes "find_ts_key json_data = Some ts_key"
    and "dict_get json_data ts_key = PDict (before @ (ts_str, PDict d) # after)"
    and "(k1, k2) \<in> set price_labels"
    and "unparseable_price rt d k1 k2"
  shows "parse_entry rt symbol ts_str (PDict d) = None \<and>
         parse_daily_response rt symbol json_data =
           Inr (parse_items rt symbol before [] @ parse_items rt symbol after [])"
proof -
  have none: "parse_entry rt symbol ts_str (PDict d) = None"
    using parse_values_unparseable [OF assms(3,4)] by (simp add: parse_entry_None)
  then have "parse_items rt symbol (before @ (ts_str, PDict d) # after) [] =
               parse_items rt symbol before [] @ parse_items rt symbol after []"
    by (simp add: parse_items_append parse_items_Cons del: parse_items.simps(2))
  then show ?thesis
    using assms(1,2) none by (simp add: parse_daily_response_def)
qed

theorem unparseable_field_skips_entry_witness:
  "find_ts_key bad_open_payload = Some ''Time Series (Daily)'' \<and>
   (''1. open'', ''open'') \<in> set price_labels \<and>
   unparseable_price dec_rt bad_open_entry ''1. open'' ''open'' \<and>
   parse_entry dec_rt ''AAPL'' ''2024-01-03'' (PDict bad_open_entry) = None \<and>
   parse_daily_response dec_rt ''AAPL'' bad_open_payload = Inr [example_bar]"
proof -
  have k: "find_ts_key bad_open_payload = Some ''Time Series (Daily)''"
    by (simp add: bad_open_payload_def startswith_def)
  have m: "dict_get bad_open_payload ''Time Series (Daily)'' =
             PDict ([] @ (''2024-01-03'', PDict bad_open_entry) # [(''2024-01-02'', example_entry)])"
    by (simp add: bad_open_payload_def dict_get_def)
  have l: "(''1. open'', ''open'') \<in> set price_labels"
    by (simp add: price_labels_def)
  have u: "unparseable_price dec_rt bad_open_entry ''1. open'' ''open''"
    by (simp add: eval_defs unparseable_price_def bad_open_entry_def)
  show ?thesis
    using unparseable_field_skips_entry [OF k m l u, of "''AAPL''"] k l u example_entry_row
    by simp
qed



section \<open>Properties of the fetcher\<close>

text \<open>
  A body with the \<^verbatim>\<open>Note\<close> key leads to a backoff sleep whatever the status: a
  server error and a read body with the key sleep inside the \<^verbatim>\<open>try\<close>, a status that
  raises in \<^verbatim>\<open>raise_for_status\<close> sleeps inside the handler.
\<close>

lemma rate_limited_try_body:
  "rate_limited outcome \<Longrightarrow> try_body outcome = SleepInTry \<or> try_body outcome = SleepInHandler"
  by (auto simp: rate_limited_def try_body_def check_data_def
           split: http_outcome.splits http_body.splits pyval.splits)

lemma attempt_once_slept:
  assumes "try_body outcome = SleepInTry \<or> try_body outcome = SleepInHandler"
    and "sleep attempt InTry = Slept" and "sleep attempt InHandler = Slept"
  shows "attempt_once sleep attempt outcome = (Continue, [HttpGet attempt, Backoff attempt])"
  using assms by (auto simp: attempt_once_def sleep_in_try_def sleep_in_handler_def)

lemma attempt_once_Continue_events:
  assumes "fst (attempt_once sleep attempt outcome) = Continue"
    and "sleep attempt InTry = Slept" and "sleep attempt InHandler = Slept"
  shows "snd (attempt_once sleep attempt outcome) = [HttpGet attempt, Backoff attempt]"
  using assms
  by (auto simp: attempt_once_def sleep_in_try_def sleep_in_handler_def split: try_result.splits)

lemma requests_made_attempt_once: "requests_made (snd (attempt_once sleep attempt outcome)) = 1"
  by (auto simp: attempt_once_def sleep_in_try_def sleep_in_handler_def requests_made_def
           split: try_result.splits sleep_outcome.splits)

lemma retried_step: "a < b \<Longrightarrow> retried a b = HttpGet a # Backoff a # retried (Suc a) b"
  by (simp add: retried_def upt_conv_Cons)

lemma retried_empty: "retried a a = []"
  by (simp add: retried_def)

lemma requests_made_retried: "requests_made (retried a b) = b - a"
proof (induction "b - a" arbitrary: a)
  case 0
  then show ?case by (simp add: retried_def requests_made_def)
next
  case (Suc n)
  then have "a < b" and "n = b - Suc a" by simp_all
  with Suc.hyps(1) [of "Suc a"] show ?case
    by (simp add: retried_step requests_made_def)
qed

lemma requests_made_append:
  "requests_made (xs @ ys) = requests_made xs + requests_made ys"
  by (simp add: requests_made_def)

lemma requests_made_fetch_attempts:
  "requests_made (snd (fetch_attempts get sleep n a)) \<le> n"
proof (induction n arbitrary: a)
  case 0
  show ?case by (simp add: requests_made_def)
next
  case (Suc n)
  obtain r events where s: "attempt_once sleep a (get a) = (r, events)"
    by (cases "attempt_once sleep a (get a)")
  have one: "requests_made events = 1"
    using requests_made_attempt_once [of sleep a "get a"] by (simp add: s)
  show ?case
    using Suc.IH [of "Suc a"] one
    by (cases r) (simp_all add: s requests_made_append split_beta)
qed

lemma fetch_attempts_continue:
  "(\<forall>attempt. a \<le> attempt \<and> attempt < a + j \<longrightarrow>
       fst (attempt_once sleep attempt (get attempt)) = Continue) \<Longrightarrow>
   j \<le> n \<Longrightarrow>
   fetch_attempts get sleep n a =
     (fst (fetch_attempts get sleep (n - j) (a + j)),
      concat (map (\<lambda>attempt. snd (attempt_once sleep attempt (get attempt))) [a ..< a + j]) @
      snd (fetch_attempts get sleep (n - j) (a + j)))"
proof (induction j arbitrary: n a)
  case 0
  then show ?case by simp
next
  case (Suc j)
  then obtain m where n: "n = Suc m" by (cases n) auto
  have c: "fst (attempt_once sleep a (get a)) = Continue" using Suc.prems(1) by simp
  then obtain events where s: "attempt_once sleep a (get a) = (Continue, events)"
    by (cases "attempt_once sleep a (get a)") auto
  have "fetch_attempts get sleep m (Suc a) =
     (fst (fetch_attempts get sleep (m - j) (Suc a + j)),
      concat (map (\<lambda>attempt. snd (attempt_once sleep attempt (get attempt))) [Suc a ..< Suc a + j]) @
      snd (fetch_attempts get sleep (m - j) (Suc a + j)))"
    using Suc.prems by (intro Suc.IH) (auto simp: n)
  then show ?case
    by (simp add: n s upt_conv_Cons [of a "Suc (a + j)"] del: upt_Suc)
qed

lemma concat_slept_retried:
  "(\<forall>attempt. a \<le> attempt \<and> attempt < b \<longrightarrow>
       snd (attempt_once sleep attempt (get attempt)) = [HttpGet attempt, Backoff attempt]) \<Longrightarrow>
   concat (map (\<lambda>attempt. snd (attempt_once sleep attempt (get attempt))) [a ..< b]) = retried a b"
proof -
  assume h: "\<forall>attempt. a \<le> attempt \<and> attempt < b \<longrightarrow>
       snd (attempt_once sleep attempt (get attempt)) = [HttpGet attempt, Backoff attempt]"
  have "map (\<lambda>attempt. snd (attempt_once sleep attempt (get attempt))) [a ..< b] =
        map (\<lambda>attempt. [HttpGet attempt, Backoff attempt]) [a ..< b]"
    using h by (intro map_cong) auto
  then show ?thesis unfolding retried_def by (rule arg_cong)
qed

lemma decoded_error_Return:
  assumes "decoded_body outcome = Some (PDict kvs)"
    and "has_key kvs ''Error Message''" and "\<not> has_key kvs ''Note''"
  shows "attempt_once sleep attempt outcome = (Return None, [HttpGet attempt])"
  using assms
  by (auto simp: decoded_body_def attempt_once_def try_body_def check_data_def
           split: http_outcome.splits http_body.splits if_splits)

text \<open>
  Claim C5, amended. With a usable API key, if every response delivers a body that holds
  the \<^verbatim>\<open>Note\<close> key, the fetcher never issues more than \<^verbatim>\<open>MAX_RETRIES\<close> requests.
  If moreover every backoff sleep returns, it returns None (it does not raise) after
  exactly \<^verbatim>\<open>MAX_RETRIES\<close> requests, each followed by one sleep: none for a maximum
  of zero or less, and at least two, but not more than the maximum, whenever the maximum
  is at least 2.
\<close>

theorem rate_limit_uses_all_attempts:
  assumes "api_key_used api_key env_api_key = Some k" and "k \<noteq> []"
    and "\<forall>attempt. rate_limited (get (params symbol k) attempt)"
  shows "requests_made (snd (fetch_daily_time_series max_retries env_api_key get sleep symbol api_key))
           \<le> nat max_retries \<and>
         ((\<forall>attempt site. sleep attempt site = Slept) \<longrightarrow>
            fst (fetch_daily_time_series max_retries env_api_key get sleep symbol api_key) = Inr None \<and>
            snd (fetch_daily_time_series max_retries env_api_key get sleep symbol api_key) =
              retried 0 (nat max_retries) \<and>
            requests_made (snd (fetch_daily_time_series max_retries env_api_key get sleep symbol api_key)) =
              nat max_retries \<and>
            (2 \<le> max_retries \<longrightarrow>
               2 \<le> requests_made
                      (snd (fetch_daily_time_series max_retries env_api_key get sleep symbol api_key)) \<and>
               int (requests_made
                      (snd (fetch_daily_time_series max_retries env_api_key get sleep symbol api_key)))
                 \<le> max_retries))"
proof (intro conjI impI)
  let ?get = "get (params symbol k)"
  let ?n = "nat max_retries"
  have run: "fetch_daily_time_series max_retries env_api_key get sleep symbol api_key =
               fetch_attempts ?get sleep ?n 0"
    using assms(1,2) by (simp add: fetch_daily_time_series_def api_key_used_def)
  show "requests_made (snd (fetch_daily_time_series max_retries env_api_key get sleep symbol api_key))
          \<le> nat max_retries"
    unfolding run by (rule requests_made_fetch_attempts)
  assume slept: "\<forall>attempt site. sleep attempt site = Slept"
  have once: "attempt_once sleep attempt (?get attempt) = (Continue, [HttpGet attempt, Backoff attempt])"
    for attempt
    using assms(3) slept by (intro attempt_once_slept rate_limited_try_body) auto
  have "fetch_attempts ?get sleep ?n 0 =
          (fst (fetch_attempts ?get sleep (?n - ?n) (0 + ?n)),
           concat (map (\<lambda>attempt. snd (attempt_once sleep attempt (?get attempt))) [0 ..< 0 + ?n]) @
           snd (fetch_attempts ?get sleep (?n - ?n) (0 + ?n)))"
    by (intro fetch_attempts_continue) (auto simp: once)
  moreover have "concat (map (\<lambda>attempt. snd (attempt_once sleep attempt (?get attempt))) [0 ..< ?n]) =
                   retried 0 ?n"
    by (intro concat_slept_retried) (auto simp: once)
  ultimately have res: "fetch_daily_time_series max_retries env_api_key get sleep symbol api_key =
                          (Inr None, retried 0 ?n)"
    by (simp add: run)
  show "fst (fetch_daily_time_series max_retries env_api_key get sleep symbol api_key) = Inr None"
    by (simp add: res)
  show "snd (fetch_daily_time_series max_retries env_api_key get sleep symbol api_key) = retried 0 ?n"
    by (simp add: res)
  show "requests_made (snd (fetch_daily_time_series max_retries env_api_key get sleep symbol api_key)) = ?n"
    by (simp add: res requests_made_retried)
  assume "2 \<le> max_retries"
  then show "2 \<le> requests_made
                    (snd (fetch_daily_time_series max_retries env_api_key get sleep symbol api_key))"
    and "int (requests_made
                (snd (fetch_daily_time_series max_retries env_api_key get sleep symbol api_key)))
           \<le> max_retries"
    by (simp_all add: res requests_made_retried)
qed

lemma retried_numeral: "retried 0 (Suc n) = retried 0 n @ [HttpGet n, Backoff n]"
  by (simp add: retried_def)

lemmas fetch_eval_defs =
  fetch_daily_time_series_def attempt_once_def try_body_def check_data_def has_key_def
  sleep_in_try_def sleep_in_handler_def requests_made_def api_key_used_def rate_limited_def
  decoded_body_def

theorem rate_limit_uses_all_attempts_witness:
  "api_key_used (Some ''demo'') None = Some ''demo'' \<and>
   rate_limited (always_note (params ''AAPL'' ''demo'') 3) \<and>
   sleeps_return 3 InTry = Slept \<and>
   fetch_daily_time_series 5 None always_note sleeps_return ''AAPL'' (Some ''demo'') =
     (Inr None, [HttpGet 0, Backoff 0, HttpGet 1, Backoff 1, HttpGet 2, Backoff 2,
                 HttpGet 3, Backoff 3, HttpGet 4, Backoff 4]) \<and>
   requests_made (snd (fetch_daily_time_series 5 None always_note sleeps_return ''AAPL'' (Some ''demo''))) = 5"
proof -
  have k: "api_key_used (Some ''demo'') None = Some ''demo''"
    by (simp add: api_key_used_def)
  have r: "\<forall>attempt. rate_limited (always_note (params ''AAPL'' ''demo'') attempt)"
    by (simp add: rate_limited_def always_note_def note_body_def has_key_def)
  have n: "''demo'' \<noteq> []" by simp
  have s: "\<forall>attempt site. sleeps_return attempt site = Slept"
    by (simp add: sleeps_return_def)
  have e: "retried 0 (nat 5) =
     [HttpGet 0, Backoff 0, HttpGet 1, Backoff 1, HttpGet 2, Backoff 2,
      HttpGet 3, Backoff 3, HttpGet 4, Backoff 4]"
    by (simp add: eval_nat_numeral retried_numeral retried_empty)
  show ?thesis
    using rate_limit_uses_all_attempts
        [where get = always_note and symbol = "''AAPL''" and max_retries = 5
           and sleep = sleeps_return, OF k n r] k r s e
    by (simp add: prod_eq_iff requests_made_def)
qed

text \<open>
  Claim C5 says that the fetch is attempted at least twice and ends with None, never
  with an exception. With \<^verbatim>\<open>MAX_RETRIES\<close> set to 1 the loop runs once: one request,
  one sleep, and None. With a maximum of 5 and a backoff that makes \<^verbatim>\<open>time.sleep\<close>
  raise ValueError (a negative \<^verbatim>\<open>FETCH_BACKOFF_BASE\<close>), the sleep inside the \<^verbatim>\<open>try\<close>
  is caught by \<^verbatim>\<open>except ValueError\<close> and the fetch ends after one request; when the
  note comes with status 429 the sleep is inside the handler and the ValueError leaves
  the function. With an oversized delay the OverflowError of the sleep inside the
  \<^verbatim>\<open>try\<close> is caught by \<^verbatim>\<open>except Exception\<close>, whose own sleep raises it out of the
  function.
\<close>

theorem single_attempt_no_retry_counterexample:
  "rate_limited (always_note (params ''AAPL'' ''demo'') 0) \<and>
   fetch_daily_time_series 1 None always_note sleeps_return ''AAPL'' (Some ''demo'') =
     (Inr None, [HttpGet 0, Backoff 0]) \<and>
   requests_made
     (snd (fetch_daily_time_series 1 None always_note sleeps_return ''AAPL'' (Some ''demo''))) = 1 \<and>
   \<not> 2 \<le> requests_made
     (snd (fetch_daily_time_series 1 None always_note sleeps_return ''AAPL'' (Some ''demo''))) \<and>
   fetch_daily_time_series 5 None always_note sleeps_negative ''AAPL'' (Some ''demo'') =
     (Inr None, [HttpGet 0, Backoff 0]) \<and>
   rate_limited (note_with_client_error (params ''AAPL'' ''demo'') 0) \<and>
   fetch_daily_time_series 5 None note_with_client_error sleeps_negative ''AAPL'' (Some ''demo'') =
     (Inl ValueError, [HttpGet 0, Backoff 0]) \<and>
   fetch_daily_time_series 5 None always_note sleeps_oversized ''AAPL'' (Some ''demo'') =
     (Inl OverflowError, [HttpGet 0, Backoff 0, Backoff 0])"
  by (simp add: fetch_eval_defs always_note_def note_with_client_error_def note_body_def
        sleeps_return_def sleeps_negative_def sleeps_oversized_def eval_nat_numeral)

text \<open>
  Claim C6, amended. If the attempts before attempt \<open>j\<close> were retried and the body
  decoded on attempt \<open>j\<close> is an object with the key \<^verbatim>\<open>Error Message\<close> and without the
  key \<^verbatim>\<open>Note\<close>, the fetcher returns None on that attempt: the request of attempt
  \<open>j\<close> is the last event, with no sleep and no request after it. The events before it
  are those of the earlier attempts; when their sleeps returned, these are one request
  and one sleep for each.
\<close>

theorem error_message_returns_at_once:
  assumes "api_key_used api_key env_api_key = Some k" and "k \<noteq> []"
    and "int j < max_retries"
    and "\<forall>attempt < j. fst (attempt_once sleep attempt (get (params symbol k) attempt)) = Continue"
    and "decoded_body (get (params symbol k) j) = Some (PDict kvs)"
    and "has_key kvs ''Error Message''" and "\<not> has_key kvs ''Note''"
  shows "fetch_daily_time_series max_retries env_api_key get sleep symbol api_key =
           (Inr None,
            concat (map (\<lambda>attempt. snd (attempt_once sleep attempt (get (params symbol k) attempt)))
                      [0 ..< j]) @ [HttpGet j]) \<and>
         ((\<forall>attempt < j. sleep attempt InTry = Slept \<and> sleep attempt InHandler = Slept) \<longrightarrow>
            fetch_daily_time_series max_retries env_api_key get sleep symbol api_key =
              (Inr None, retried 0 j @ [HttpGet j]))"
proof -
  let ?get = "get (params symbol k)"
  obtain m where m: "nat max_retries - j = Suc m"
    using assms(3) by (cases "nat max_retries - j") auto
  have stop: "attempt_once sleep j (?get j) = (Return None, [HttpGet j])"
    using assms(5,6,7) by (rule decoded_error_Return)
  have "fetch_attempts ?get sleep (nat max_retries) 0 =
          (fst (fetch_attempts ?get sleep (nat max_retries - j) (0 + j)),
           concat (map (\<lambda>attempt. snd (attempt_once sleep attempt (?get attempt))) [0 ..< 0 + j]) @
           snd (fetch_attempts ?get sleep (nat max_retries - j) (0 + j)))"
    using assms(3,4) by (intro fetch_attempts_continue) auto
  then have "fetch_attempts ?get sleep (nat max_retries) 0 =
      (Inr None, concat (map (\<lambda>attempt. snd (attempt_once sleep attempt (?get attempt))) [0 ..< j]) @
                 [HttpGet j])"
    by (simp add: m stop)
  then have res: "fetch_daily_time_series max_retries env_api_key get sleep symbol api_key =
      (Inr None, concat (map (\<lambda>attempt. snd (attempt_once sleep attempt (?get attempt))) [0 ..< j]) @
                 [HttpGet j])"
    using assms(1,2) by (simp add: fetch_daily_time_series_def api_key_used_def)
  have "concat (map (\<lambda>attempt. snd (attempt_once sleep attempt (?get attempt))) [0 ..< j]) = retried 0 j"
    if "\<forall>attempt < j. sleep attempt InTry = Slept \<and> sleep attempt InHandler = Slept"
    using that assms(4) by (intro concat_slept_retried) (auto intro: attempt_once_Continue_events)
  with res show ?thesis by simp
qed

theorem error_message_returns_at_once_witness:
  "api_key_used None (Some ''demo'') = Some ''demo'' \<and>
   fst (attempt_once sleeps_return 0 (note_then_error (params ''AAPL'' ''demo'') 0)) = Continue \<and>
   decoded_body (note_then_error (params ''AAPL'' ''demo'') 1) = Some (PDict error_body) \<and>
   has_key error_body ''Error Message'' \<and> \<not> has_key error_body ''Note'' \<and>
   fetch_daily_time_series 5 (Some ''demo'') note_then_error sleeps_return ''AAPL'' None =
     (Inr None, [HttpGet 0, Backoff 0, HttpGet 1])"
proof -
  have k: "api_key_used None (Some ''demo'') = Some ''demo''"
    by (simp add: api_key_used_def)
  have n: "''demo'' \<noteq> []" by simp
  have j: "int 1 < 5" by simp
  have c: "\<forall>attempt < 1.
             fst (attempt_once sleeps_return attempt (note_then_error (params ''AAPL'' ''demo'') attempt)) =
             Continue"
    by (simp add: note_then_error_def attempt_once_def try_body_def check_data_def has_key_def
          note_body_def sleep_in_try_def sleeps_return_def)
  have d: "decoded_body (note_then_error (params ''AAPL'' ''demo'') 1) = Some (PDict error_body)"
    by (simp add: note_then_error_def decoded_body_def)
  have h: "has_key error_body ''Error Message''" "\<not> has_key error_body ''Note''"
    by (simp_all add: has_key_def error_body_def)
  have s: "\<forall>attempt < 1. sleeps_return attempt InTry = Slept \<and> sleeps_return attempt InHandler = Slept"
    by (simp add: sleeps_return_def)
  have e: "retried 0 1 = [HttpGet 0, Backoff 0]"
    by (simp add: retried_def)
  show ?thesis
    using error_message_returns_at_once
        [where get = note_then_error and symbol = "''AAPL''" and sleep = sleeps_return,
         OF k n j c d h] k c d h e s
    by (simp add: note_then_error_def attempt_once_def try_body_def check_data_def has_key_def
          note_body_def sleep_in_try_def sleeps_return_def)
qed

text \<open>
  Claim C6 says that a decoded body with the \<^verbatim>\<open>Error Message\<close> key always ends the
  fetch at once. The check for \<^verbatim>\<open>Note\<close> comes first in the code: a body with both keys
  is retried until the attempts are used up.
\<close>

theorem note_before_error_message_counterexample:
  "decoded_body (Response 200 (Decoded (PDict note_and_error_body))) = Some (PDict note_and_error_body) \<and>
   has_key note_and_error_body ''Error Message'' \<and>
   fetch_daily_time_series 3 None (\<lambda>q attempt. Response 200 (Decoded (PDict note_and_error_body)))
       sleeps_return ''AAPL'' (Some ''demo'') =
     (Inr None, [HttpGet 0, Backoff 0, HttpGet 1, Backoff 1, HttpGet 2, Backoff 2])"
  by (simp add: fetch_eval_defs note_and_error_body_def sleeps_return_def eval_nat_numeral)

text \<open>
  Claim C9. If the \<^verbatim>\<open>api_key\<close> argument is None and the environment has no
  \<^verbatim>\<open>API_KEY\<close>, or if the key that would be used is the empty string, the fetcher
  returns None with no event at all: no request, no sleep, no attempt.
\<close>

theorem no_api_key_no_request:
  assumes "(api_key = None \<and> env_api_key = None) \<or> api_key_used api_key env_api_key = Some []"
  shows "fetch_daily_time_series max_retries env_api_key get sleep symbol api_key = (Inr None, [])"
  using assms by (auto simp: fetch_daily_time_series_def api_key_used_def)

theorem no_api_key_no_request_witness:
  "fetch_daily_time_series 5 None always_note sleeps_return ''AAPL'' None = (Inr None, []) \<and>
   api_key_used (Some []) (Some ''demo'') = Some [] \<and>
   fetch_daily_time_series 5 (Some ''demo'') always_note sleeps_return ''AAPL'' (Some []) = (Inr None, [])"
proof -
  have a: "(None = (None :: string option) \<and> None = (None :: string option)) \<or>
           api_key_used None None = Some []"
    by simp
  have b: "api_key_used (Some []) (Some ''demo'') = Some []"
    by (simp add: api_key_used_def)
  then have b': "(Some [] = (None :: string option) \<and> Some ''demo'' = None) \<or>
           api_key_used (Some []) (Some ''demo'') = Some []"
    by simp
  show ?thesis
    using no_api_key_no_request [OF a, of 5 always_note sleeps_return "''AAPL''"]
      no_api_key_no_request [OF b', of 5 always_note sleeps_return "''AAPL''"] b
    by simp
qed

section \<open>Properties of the store\<close>

lemma write_batch_first_commit:
  "0 < max_retries \<Longrightarrow> db i (Suc 0) batch = Committed \<Longrightarrow>
   write_batch db max_retries i batch 0 = (Inr True, [DbWrite i (Suc 0) batch])"
  by (subst write_batch.simps) simp

text \<open>
  The only exception the retry loop of a batch raises is the RuntimeError with the fixed
  message, and it is raised when every attempt the loop may make fails.
\<close>

lemma write_batch_raises:
  "fst (write_batch db max_retries i batch a) = Inl e \<Longrightarrow> e = upsert_failure"
proof (induction "nat max_retries - a" arbitrary: a)
  case 0
  then have "\<not> int a < max_retries" by simp
  with "0.prems" show ?case by (subst (asm) write_batch.simps) simp
next
  case (Suc n)
  then have lt: "int a < max_retries" and n: "n = nat max_retries - Suc a" by simp_all
  show ?case
  proof (cases "db i (Suc a) batch = Committed \<or> max_retries \<le> int (Suc a)")
    case True
    with Suc.prems lt show ?thesis
      by (subst (asm) write_batch.simps)
         (auto simp: upsert_failure_def split: db_outcome.splits if_splits)
  next
    case False
    with Suc.prems lt have "fst (write_batch db max_retries i batch (Suc a)) = Inl e"
      by (subst (asm) write_batch.simps) (auto split: db_outcome.splits prod.splits)
    with Suc.hyps(1) [OF n] show ?thesis by simp
  qed
qed

lemma write_batch_always_failing:
  "\<forall>a'. a < a' \<and> int a' \<le> max_retries \<longrightarrow> db i a' batch \<noteq> Committed \<Longrightarrow>
   int a < max_retries \<Longrightarrow>
   fst (write_batch db max_retries i batch a) = Inl upsert_failure"
proof (induction "nat max_retries - a" arbitrary: a)
  case 0
  then show ?case by simp
next
  case (Suc n)
  then have n: "n = nat max_retries - Suc a" by simp
  have f: "db i (Suc a) batch \<noteq> Committed" using Suc.prems by simp
  show ?case
  proof (cases "max_retries \<le> int (Suc a)")
    case True
    with f Suc.prems(2) show ?thesis
      by (subst write_batch.simps) (auto simp: upsert_failure_def split: db_outcome.splits)
  next
    case False
    then have "fst (write_batch db max_retries i batch (Suc a)) = Inl upsert_failure"
      using Suc.hyps(1) [OF n] Suc.prems(1) by simp
    with f False Suc.prems(2) show ?thesis
      by (subst write_batch.simps) (auto split: db_outcome.splits prod.splits)
  qed
qed

lemma upsert_batches_failing_batch:
  assumes "0 < max_retries" and "i \<in> set offsets"
    and "\<forall>a batch. 0 < a \<and> int a \<le> max_retries \<longrightarrow> db i a batch \<noteq> Committed"
  shows "fst (upsert_batches db max_retries batch_size tuples offsets total_n) = Inl upsert_failure"
  using assms(2)
proof (induction offsets arbitrary: total_n)
  case Nil
  then show ?case by simp
next
  case (Cons j rest)
  let ?batch = "py_slice tuples j (j + batch_size)"
  obtain r events where w: "write_batch db max_retries j ?batch 0 = (r, events)"
    by (cases "write_batch db max_retries j ?batch 0")
  show ?case
  proof (cases r)
    case (Inl e)
    with w write_batch_raises [of db max_retries j ?batch 0 e] show ?thesis by simp
  next
    case (Inr counted)
    have "j \<noteq> i"
    proof
      assume "j = i"
      then have "fst (write_batch db max_retries j ?batch 0) = Inl upsert_failure"
        using assms(1,3) by (intro write_batch_always_failing) auto
      with w Inr show False by simp
    qed
    with Cons.prems have "i \<in> set rest" by simp
    from Cons.IH [OF this] w Inr show ?thesis
      by (simp add: split_beta)
  qed
qed

lemma py_range_chunks:
  "0 < batch_size \<Longrightarrow>
   py_range 0 (int n) batch_size =
     Inr (map (\<lambda>k. int k * batch_size) [0 ..< (n + nat batch_size - 1) div nat batch_size])"
proof -
  assume b: "0 < batch_size"
  have "(int n + batch_size - 1) div batch_size = int ((n + nat batch_size - 1) div nat batch_size)"
    using b by (simp add: zdiv_int nat_diff_distrib' of_nat_diff)
  then show ?thesis using b by (simp add: py_range_def)
qed

lemma py_slice_chunk:
  "0 < batch_size \<Longrightarrow>
   py_slice xs (int k * batch_size) (int k * batch_size + batch_size) =
     take (nat batch_size) (drop (k * nat batch_size) xs)"
proof -
  assume b: "0 < batch_size"
  have i: "nat (int k * batch_size) = k * nat batch_size"
    using b by (simp add: nat_mult_distrib)
  have j: "nat (int k * batch_size + batch_size) = k * nat batch_size + nat batch_size"
    using b by (simp add: nat_add_distrib i)
  have nn: "\<not> int k * batch_size < 0" "\<not> int k * batch_size + batch_size < 0"
    using b by (simp_all add: not_less add_nonneg_nonneg)
  have lo: "clamp_index (length xs) (int k * batch_size) = min (k * nat batch_size) (length xs)"
    using nn by (simp add: clamp_index_def i)
  have hi: "clamp_index (length xs) (int k * batch_size + batch_size) =
              min (k * nat batch_size + nat batch_size) (length xs)"
    using nn by (simp add: clamp_index_def j)
  show ?thesis
  proof (cases "k * nat batch_size \<le> length xs")
    case True
    then have "take (min (k * nat batch_size + nat batch_size) (length xs) - k * nat batch_size)
                 (drop (k * nat batch_size) xs) = take (nat batch_size) (drop (k * nat batch_size) xs)"
      by (intro take_equalityI) (auto simp: min_def)
    with True show ?thesis by (simp add: py_slice_def lo hi Let_def min_def)
  next
    case False
    then show ?thesis by (simp add: py_slice_def lo hi Let_def min_def)
  qed
qed

lemma upsert_batches_all_commit:
  assumes "0 < max_retries" and "\<forall>i a batch. db i a batch = Committed"
  shows "upsert_batches db max_retries batch_size tuples offsets total_n =
           (Inr (total_n +
                 int (length (concat (map (\<lambda>i. py_slice tuples i (i + batch_size)) offsets)))),
            map (\<lambda>i. DbWrite i (Suc 0) (py_slice tuples i (i + batch_size))) offsets)"
proof (induction offsets arbitrary: total_n)
  case Nil
  show ?case by simp
next
  case (Cons i rest)
  have "write_batch db max_retries i (py_slice tuples i (i + batch_size)) 0 =
          (Inr True, [DbWrite i (Suc 0) (py_slice tuples i (i + batch_size))])"
    using assms by (intro write_batch_first_commit) auto
  then show ?case by (simp add: Cons.IH Let_def)
qed

lemma written_DbWrite: "written (map (\<lambda>x. DbWrite (f x) (g x) (h x)) xs) = map h xs"
  by (induction xs) auto

lemma concat_chunks_take:
  "concat (map (\<lambda>k. take c (drop (k * c) xs)) [0 ..< m]) = take (m * c) xs"
proof (induction m)
  case 0
  show ?case by simp
next
  case (Suc m)
  have "take (m * c + c) xs = take (m * c) xs @ take c (drop (m * c) xs)"
    by (rule take_add)
  with Suc show ?case by (simp add: add.commute)
qed

lemma chunks_cover: "0 < c \<Longrightarrow> n \<le> ((n + c - 1) div c) * (c::nat)"
proof -
  assume c: "0 < c"
  have "n + c - 1 = ((n + c - 1) div c) * c + (n + c - 1) mod c"
    by simp
  moreover have "(n + c - 1) mod c < c" using c by simp
  ultimately show ?thesis using c by linarith
qed

lemma concat_consecutive_chunks: "0 < c \<Longrightarrow> concat (consecutive_chunks c xs) = xs"
  using chunks_cover [of c "length xs"]
  by (simp add: consecutive_chunks_def concat_chunks_take)

lemma chunk_count: "0 < c \<Longrightarrow> (n + c - 1) div c = n div c + (if n mod c = 0 then 0 else (1::nat))"
proof -
  assume c: "0 < c"
  obtain q r where n: "n = q * c + r" and r: "r < c" and q: "q = n div c" and r': "r = n mod c"
    using c by (metis div_mult_mod_eq mod_less_divisor)
  show ?thesis
  proof (cases "r = 0")
    case True
    then have "n + c - 1 = q * c + (c - 1)" using n c by simp
    moreover have "(q * c + (c - 1)) div c = q + (c - 1) div c"
      using c by (subst div_mult_self3) auto
    moreover have "(c - 1) div c = 0" using c by simp
    ultimately have "(n + c - 1) div c = q" by simp
    then show ?thesis using True q r' by simp
  next
    case False
    then have "n + c - 1 = (q + 1) * c + (r - 1)" using n c by (simp add: algebra_simps)
    then have "(n + c - 1) div c = (q + 1) + (r - 1) div c"
      using c by (metis div_mult_self3 less_numeral_extra(3))
    moreover have "(r - 1) div c = 0" using r by simp
    ultimately show ?thesis using False q r' by simp
  qed
qed

lemma chunk_sizes:
  assumes "0 < c"
  shows "map length (consecutive_chunks c xs) =
           replicate (length xs div c) c @ (if length xs mod c = 0 then [] else [length xs mod c])"
proof -
  let ?n = "length xs"
  let ?q = "?n div c"
  have full: "map (\<lambda>k. min (?n - k * c) c) [0 ..< ?q] = replicate ?q c"
  proof -
    have "min (?n - k * c) c = c" if "k < ?q" for k
    proof -
      from that have "Suc k \<le> ?q" by simp
      then have "Suc k * c \<le> ?q * c" by (rule mult_le_mono1)
      also have "\<dots> \<le> ?n" by simp
      finally show ?thesis by simp
    qed
    then have "map (\<lambda>k. min (?n - k * c) c) [0 ..< ?q] = map (\<lambda>k. c) [0 ..< ?q]"
      by (intro map_cong) auto
    then show ?thesis by (simp add: map_replicate_const)
  qed
  have last: "min (?n - ?q * c) c = ?n mod c"
    using assms by (simp add: minus_div_mult_eq_mod min_def less_imp_le)
  have m: "map length (consecutive_chunks c xs) =
             map (\<lambda>k. min (?n - k * c) c) [0 ..< (?n + c - 1) div c]"
    unfolding consecutive_chunks_def by (simp add: comp_def)
  show ?thesis
  proof (cases "?n mod c = 0")
    case True
    then show ?thesis
      unfolding m chunk_count [OF assms] using full by simp
  next
    case False
    then show ?thesis
      unfolding m chunk_count [OF assms] using full last by simp
  qed
qed

lemma upsert_all_commit:
  assumes "rows \<noteq> []" and "0 < batch_size" and "0 < max_retries"
    and "\<forall>i a batch. db i a batch = Committed"
  shows "upsert_stock_rows ser db max_retries rows batch_size =
           (Inr (int (length rows)),
            map (\<lambda>k. DbWrite (int k * batch_size) (Suc 0)
                      (take (nat batch_size) (drop (k * nat batch_size) (map (to_tuple ser) rows))))
              [0 ..< (length rows + nat batch_size - 1) div nat batch_size])"
proof -
  let ?tuples = "map (to_tuple ser) rows"
  let ?c = "nat batch_size"
  let ?m = "(length rows + ?c - 1) div ?c"
  have c: "0 < ?c" using assms(2) by simp
  have slices: "map (\<lambda>i. py_slice ?tuples i (i + batch_size)) (map (\<lambda>k. int k * batch_size) [0 ..< ?m]) =
                  consecutive_chunks ?c ?tuples"
    using assms(2) by (simp add: consecutive_chunks_def py_slice_chunk comp_def)
  have "upsert_stock_rows ser db max_retries rows batch_size =
          upsert_batches db max_retries batch_size ?tuples (map (\<lambda>k. int k * batch_size) [0 ..< ?m]) 0"
    using assms(1,2) py_range_chunks [OF assms(2), of "length rows"]
    by (simp add: upsert_stock_rows_def)
  also have "\<dots> =
      (Inr (0 + int (length (concat (map (\<lambda>i. py_slice ?tuples i (i + batch_size))
                                        (map (\<lambda>k. int k * batch_size) [0 ..< ?m]))))),
       map (\<lambda>i. DbWrite i (Suc 0) (py_slice ?tuples i (i + batch_size)))
         (map (\<lambda>k. int k * batch_size) [0 ..< ?m]))"
    using assms(3,4) by (rule upsert_batches_all_commit)
  also have "\<dots> =
      (Inr (int (length rows)),
       map (\<lambda>k. DbWrite (int k * batch_size) (Suc 0) (take ?c (drop (k * ?c) ?tuples))) [0 ..< ?m])"
    using assms(2) unfolding slices
    by (simp add: concat_consecutive_chunks [OF c] py_slice_chunk comp_def)
  finally show ?thesis .
qed

lemma chunk_in_range: "0 < c \<Longrightarrow> k * c < n \<Longrightarrow> k < (n + c - 1) div (c::nat)"
proof -
  assume c: "0 < c" and k: "k * c < n"
  have "\<not> (n + c - 1) div c \<le> k"
  proof
    assume "(n + c - 1) div c \<le> k"
    then have "((n + c - 1) div c) * c \<le> k * c" by (rule mult_le_mono1)
    with chunks_cover [OF c, of n] k show False by linarith
  qed
  then show ?thesis by simp
qed

text \<open>
  Claim C2, amended. For a non-empty list, a positive batch size and at least one
  configured attempt, if every attempt to write some chunk (chunk number \<open>k\<close>,
  starting at index \<open>k * batch_size\<close>) fails, the call ends by raising RuntimeError. Its
  message is the fixed text \<^verbatim>\<open>Failed to upsert batch after retries\<close>, the same
  whichever chunk failed and however many rows it had.
\<close>

theorem exhausted_chunk_raises_fixed_error:
  assumes "rows \<noteq> []" and "0 < batch_size" and "0 < max_retries"
    and "k * nat batch_size < length rows"
    and "\<forall>a batch. 0 < a \<and> int a \<le> max_retries \<longrightarrow> db (int k * batch_size) a batch \<noteq> Committed"
  shows "fst (upsert_stock_rows ser db max_retries rows batch_size) =
           Inl (RuntimeError ''Failed to upsert batch after retries'')"
proof -
  let ?m = "(length rows + nat batch_size - 1) div nat batch_size"
  have "k < ?m"
    using assms(2,4) by (intro chunk_in_range) auto
  then have mem: "int k * batch_size \<in> set (map (\<lambda>k. int k * batch_size) [0 ..< ?m])"
    by auto
  have "upsert_stock_rows ser db max_retries rows batch_size =
          upsert_batches db max_retries batch_size (map (to_tuple ser) rows)
            (map (\<lambda>k. int k * batch_size) [0 ..< ?m]) 0"
    using assms(1,2) py_range_chunks [OF assms(2), of "length rows"]
    by (simp add: upsert_stock_rows_def)
  then show ?thesis
    using upsert_batches_failing_batch
            [where db = db and i = "int k * batch_size", OF assms(3) mem assms(5)]
    by (simp add: upsert_failure_def)
qed

theorem exhausted_chunk_raises_fixed_error_witness:
  "replicate 5 example_bar \<noteq> [] \<and> 1 * nat 2 < length (replicate 5 example_bar) \<and>
   db_second_chunk_down (int 1 * 2) 3 [] \<noteq> Committed \<and>
   fst (upsert_stock_rows plain_ser db_second_chunk_down 3 (replicate 5 example_bar) 2) =
     Inl (RuntimeError ''Failed to upsert batch after retries'')"
proof -
  have r: "replicate 5 example_bar \<noteq> []" by simp
  have b: "(0::int) < 2" and m: "(0::int) < 3" by simp_all
  have k: "1 * nat 2 < length (replicate 5 example_bar)" by simp
  have d: "\<forall>a batch. 0 < a \<and> int a \<le> 3 \<longrightarrow> db_second_chunk_down (int 1 * 2) a batch \<noteq> Committed"
    by (simp add: db_second_chunk_down_def)
  show ?thesis
    using exhausted_chunk_raises_fixed_error
            [where db = db_second_chunk_down and k = 1 and ser = plain_ser, OF r b m k d] r k
    by (simp add: db_second_chunk_down_def)
qed

text \<open>
  Claim C2 says that the raised error names the index of the failing chunk and its row
  count. When the only chunk (index 0, batch 1 in the log, one row) fails three times,
  the error is the RuntimeError with the fixed message, in which neither \<^verbatim>\<open>0\<close> nor
  \<^verbatim>\<open>1\<close> occurs; when the second chunk of two rows fails in another run, the error is
  the same value.
\<close>

theorem upsert_error_without_chunk_context_counterexample:
  "upsert_stock_rows plain_ser db_down 3 [example_bar] 200 =
     (Inl (RuntimeError ''Failed to upsert batch after retries''),
      [DbWrite 0 1 [to_tuple plain_ser example_bar], DbSleep 1,
       DbWrite 0 2 [to_tuple plain_ser example_bar], DbSleep 2,
       DbWrite 0 3 [to_tuple plain_ser example_bar]]) \<and>
   \<not> occurs_in ''1'' ''Failed to upsert batch after retries'' \<and>
   \<not> occurs_in ''0'' ''Failed to upsert batch after retries'' \<and>
   fst (upsert_stock_rows plain_ser db_second_chunk_down 3 (replicate 5 example_bar) 2) =
     fst (upsert_stock_rows plain_ser db_down 3 [example_bar] 200)"
  by (simp add: upsert_stock_rows_def py_range_def py_slice_def clamp_index_def write_batch.simps
        db_down_def db_second_chunk_down_def startswith_def eval_nat_numeral Let_def)

text \<open>
  Claim C3. For a non-empty list of \<open>n\<close> rows and a chunk size \<open>c > 0\<close>, when every
  write succeeds (and at least one attempt is configured, so that chunks are written),
  \<^verbatim>\<open>upsert_stock_rows\<close> returns \<open>n\<close> and hands the database, with one call each, the
  \<open>\<lceil>n / c\<rceil>\<close> consecutive chunks of the tuples: their concatenation is the list of
  tuples, and their sizes are \<open>c\<close> for \<open>n div c\<close> chunks, followed by one chunk of
  \<open>n mod c\<close> when that is not zero. For 450 rows and \<open>c = 200\<close> the sizes are 200, 200
  and 50.
\<close>

theorem upsert_chunks_and_total:
  assumes "rows \<noteq> []" and "0 < batch_size" and "0 < max_retries"
    and "\<forall>i a batch. db i a batch = Committed"
  shows "fst (upsert_stock_rows ser db max_retries rows batch_size) = Inr (int (length rows)) \<and>
         written (snd (upsert_stock_rows ser db max_retries rows batch_size)) =
           consecutive_chunks (nat batch_size) (map (to_tuple ser) rows) \<and>
         length (snd (upsert_stock_rows ser db max_retries rows batch_size)) =
           (length rows + nat batch_size - 1) div nat batch_size \<and>
         length (written (snd (upsert_stock_rows ser db max_retries rows batch_size))) =
           (length rows + nat batch_size - 1) div nat batch_size \<and>
         concat (written (snd (upsert_stock_rows ser db max_retries rows batch_size))) =
           map (to_tuple ser) rows \<and>
         map length (written (snd (upsert_stock_rows ser db max_retries rows batch_size))) =
           replicate (length rows div nat batch_size) (nat batch_size) @
           (if length rows mod nat batch_size = 0 then [] else [length rows mod nat batch_size])"
proof -
  let ?run = "upsert_stock_rows ser db max_retries rows batch_size"
  let ?c = "nat batch_size"
  let ?tuples = "map (to_tuple ser) rows"
  have c: "0 < ?c" using assms(2) by simp
  note run = upsert_all_commit [OF assms, of ser]
  have total_ok: "fst ?run = Inr (int (length rows))"
    by (simp add: run)
  have calls: "length (snd ?run) = (length rows + ?c - 1) div ?c"
    by (simp add: run)
  have w: "written (snd ?run) = consecutive_chunks ?c ?tuples"
    by (simp add: run written_DbWrite consecutive_chunks_def)
  have n: "length (written (snd ?run)) = (length rows + ?c - 1) div ?c"
    unfolding w by (simp add: consecutive_chunks_def)
  have cc: "concat (written (snd ?run)) = ?tuples"
    unfolding w by (rule concat_consecutive_chunks [OF c])
  have sz: "map length (written (snd ?run)) =
              replicate (length rows div ?c) ?c @
              (if length rows mod ?c = 0 then [] else [length rows mod ?c])"
    unfolding w using chunk_sizes [OF c, of ?tuples] by simp
  show ?thesis
    using total_ok calls w n cc sz by blast
qed

theorem upsert_chunks_and_total_witness:
  "replicate 450 example_bar \<noteq> [] \<and> db_up 400 1 [] = Committed \<and>
   fst (upsert_stock_rows plain_ser db_up 3 (replicate 450 example_bar) 200) = Inr 450 \<and>
   length (snd (upsert_stock_rows plain_ser db_up 3 (replicate 450 example_bar) 200)) = 3 \<and>
   map length (written (snd (upsert_stock_rows plain_ser db_up 3 (replicate 450 example_bar) 200))) =
     [200, 200, 50]"
proof -
  let ?run = "upsert_stock_rows plain_ser db_up 3 (replicate 450 example_bar) 200"
  have r: "replicate 450 example_bar \<noteq> []" by simp
  have b: "(0::int) < 200" and m: "(0::int) < 3" by simp_all
  have d: "\<forall>i a batch. db_up i a batch = Committed"
    by (simp add: db_up_def)
  note t = upsert_chunks_and_total [where db = db_up and ser = plain_ser, OF r b m d]
  have t1: "fst ?run = Inr (int (length (replicate 450 example_bar)))"
    using t by (rule conjunct1)
  have t3: "length (snd ?run) = (length (replicate 450 example_bar) + nat 200 - 1) div nat 200"
    using t by (elim conjE)
  have t6: "map length (written (snd ?run)) =
           replicate (length (replicate 450 example_bar) div nat 200) (nat 200) @
           (if length (replicate 450 example_bar) mod nat 200 = 0 then []
            else [length (replicate 450 example_bar) mod nat 200])"
    using t by (elim conjE)
  have "(450::nat) div 200 = 2" by simp
  moreover have "replicate 2 (200::nat) = [200, 200]"
    by (simp add: numeral_2_eq_2)
  ultimately have q: "replicate (450 div 200) (200::nat) = [200, 200]"
    by (simp only:)
  have "fst ?run = Inr 450" using t1 by simp
  moreover have "length (snd ?run) = 3" using t3 by simp
  moreover have "map length (written (snd ?run)) = [200, 200, 50]"
    using t6 q by simp
  ultimately show ?thesis using r d by simp
qed

text \<open>
  Claim C8. For the empty list \<^verbatim>\<open>upsert_stock_rows\<close> returns 0, raises nothing and
  produces no event: no database call and no sleep, whatever the batch size and the
  configured attempts.
\<close>

theorem empty_input_returns_zero:
  "upsert_stock_rows ser db max_retries [] batch_size = (Inr 0, [])"
  by (simp add: upsert_stock_rows_def)

end
